theory Spec2Isabelle
  imports Main "HOL-Library.AList"
begin

section \<open>JavaScript values\<close>

text \<open>
  The hook \<open>useForm\<close> of \<open>use-form.ts\<close> keeps two React state cells, \<open>values\<close> and
  \<open>errors\<close>, both plain JavaScript objects. Values are modelled structurally: numbers are
  integers, an object is the list of its own string-keyed properties (read through
  \<open>map_of\<close>), an array is the list of its elements and carries the list tag of
  \<open>formList\<close>. Inherited (prototype) properties are not part of the model.
\<close>

datatype jsval =
    JUndefined
  | JNull
  | JBool bool
  | JNum int
  | JStr string
  | JObj "(string \<times> jsval) list"
  | JArr bool "jsval list"

type_synonym props = "(string \<times> jsval) list"

datatype js_error = TypeError

text \<open>
  Modelled from the spec: \<open>form-list/form-list.ts\<close> (\<open>formList\<close>, \<open>isFormList\<close>) is imported
  by the hook and absent from the sources. The spec describes a list value as a value
  "explicitly tagged as a list", a tag that every list operation must preserve; the tag
  is the boolean carried by \<open>JArr\<close>, set by \<open>formList\<close> and tested by \<open>isFormList\<close>.
\<close>

definition formList :: "jsval list \<Rightarrow> jsval" where
  "formList xs = JArr True xs"

text \<open>
  Modelled from the spec: \<open>isFormList\<close> of \<open>form-list/form-list.ts\<close>, absent from the sources,
  is the test "is tagged as a list value"; anything but a tagged array fails it.
\<close>

definition isFormList :: "jsval \<Rightarrow> bool" where
  "isFormList v = (case v of JArr tagged _ \<Rightarrow> tagged | _ \<Rightarrow> False)"

text \<open>The elements of an array value, as \<open>[...list]\<close> copies them.\<close>

definition items :: "jsval \<Rightarrow> jsval list" where
  "items v = (case v of JArr _ xs \<Rightarrow> xs | _ \<Rightarrow> [])"

text \<open>Truthiness, as \<open>if (x)\<close>, \<open>!x\<close> and \<open>&&\<close> test it.\<close>

definition js_truthy :: "jsval \<Rightarrow> bool" where
  "js_truthy v =
     (case v of
        JUndefined \<Rightarrow> False
      | JNull \<Rightarrow> False
      | JBool b \<Rightarrow> b
      | JNum n \<Rightarrow> n \<noteq> 0
      | JStr s \<Rightarrow> s \<noteq> []
      | JObj _ \<Rightarrow> True
      | JArr _ _ \<Rightarrow> True)"

text \<open>\<open>obj[key]\<close> on an object given by its properties: a missing key reads \<open>undefined\<close>.\<close>

definition prop_get :: "props \<Rightarrow> string \<Rightarrow> jsval" where
  "prop_get ps key = (case map_of ps key of None \<Rightarrow> JUndefined | Some v \<Rightarrow> v)"

text \<open>\<open>xs[i]\<close> on an array: \<open>undefined\<close> outside \<open>0 .. length - 1\<close>.\<close>

definition nth_js :: "jsval list \<Rightarrow> int \<Rightarrow> jsval" where
  "nth_js xs i = (if 0 \<le> i \<and> i < int (length xs) then xs ! nat i else JUndefined)"

text \<open>The decimal spelling of an array index, the property key it is stored under.\<close>

fun decimal :: "nat \<Rightarrow> string" where
  "decimal n =
     (if n < 10 then [''0123456789'' ! n]
      else decimal (n div 10) @ [''0123456789'' ! (n mod 10)])"

definition index_key :: "int \<Rightarrow> string" where
  "index_key i = (if i < 0 then CHR ''-'' # decimal (nat (- i)) else decimal (nat i))"

text \<open>
  \<open>v[i]\<close> for a number \<open>i\<close> and \<open>v[key]\<close> for a string \<open>key\<close>, on a value that is neither
  \<open>undefined\<close> nor \<open>null\<close>: own properties only.
\<close>

definition js_index :: "jsval \<Rightarrow> int \<Rightarrow> jsval" where
  "js_index v i =
     (case v of
        JArr _ xs \<Rightarrow> nth_js xs i
      | JObj ps \<Rightarrow> prop_get ps (index_key i)
      | JStr s \<Rightarrow> (if 0 \<le> i \<and> i < int (length s) then JStr [s ! nat i] else JUndefined)
      | _ \<Rightarrow> JUndefined)"

definition js_field :: "jsval \<Rightarrow> string \<Rightarrow> jsval" where
  "js_field v key =
     (case v of
        JObj ps \<Rightarrow> prop_get ps key
      | JArr _ xs \<Rightarrow>
          (if key = ''length'' then JNum (int (length xs))
           else (case filter (\<lambda>n. decimal n = key) [0..<length xs] of
                   [] \<Rightarrow> JUndefined | n # _ \<Rightarrow> xs ! n))
      | JStr s \<Rightarrow>
          (if key = ''length'' then JNum (int (length s))
           else (case filter (\<lambda>n. decimal n = key) [0..<length s] of
                   [] \<Rightarrow> JUndefined | n # _ \<Rightarrow> JStr [s ! n]))
      | _ \<Rightarrow> JUndefined)"

text \<open>Member access raises a \<open>TypeError\<close> on \<open>undefined\<close> and \<open>null\<close>.\<close>

definition js_member :: "jsval \<Rightarrow> string \<Rightarrow> js_error + jsval" where
  "js_member v key =
     (if v = JUndefined \<or> v = JNull then Inl TypeError else Inr (js_field v key))"

text \<open>Optional chaining \<open>v?.[i]\<close> and \<open>v?.[key]\<close>: \<open>undefined\<close> on \<open>undefined\<close> and \<open>null\<close>.\<close>

definition opt_index :: "jsval \<Rightarrow> int \<Rightarrow> jsval" where
  "opt_index v i = (if v = JUndefined \<or> v = JNull then JUndefined else js_index v i)"

definition opt_field :: "jsval \<Rightarrow> string \<Rightarrow> jsval" where
  "opt_field v key = (if v = JUndefined \<or> v = JNull then JUndefined else js_field v key)"

text \<open>
  The own enumerable properties that \<open>{ ...v }\<close> copies: those of an object, the indexed
  elements of an array or of a string, none for any other value.
\<close>

definition spread :: "jsval \<Rightarrow> props" where
  "spread v =
     (case v of
        JObj ps \<Rightarrow> ps
      | JArr _ xs \<Rightarrow> map (\<lambda>n. (decimal n, xs ! n)) [0..<length xs]
      | JStr s \<Rightarrow> map (\<lambda>n. (decimal n, JStr [s ! n])) [0..<length s]
      | _ \<Rightarrow> [])"

text \<open>
  \<open>Array.prototype.filter\<close> with the two-argument callback \<open>(item, index)\<close>: the elements
  are visited from index \<open>i\<close> upwards and kept where the callback holds.
\<close>

fun js_filter :: "(jsval \<Rightarrow> int \<Rightarrow> bool) \<Rightarrow> int \<Rightarrow> jsval list \<Rightarrow> jsval list" where
  "js_filter keep i [] = []"
| "js_filter keep i (x # xs) =
     (if keep x i then x # js_filter keep (i + 1) xs else js_filter keep (i + 1) xs)"

text \<open>
  \<open>Array.prototype.splice(start, deleteCount, ...new_items)\<close>: a negative \<open>start\<close> counts
  from the end, \<open>start\<close> and \<open>deleteCount\<close> are clamped to the array.
\<close>

definition js_splice :: "int \<Rightarrow> int \<Rightarrow> jsval list \<Rightarrow> jsval list \<Rightarrow> jsval list" where
  "js_splice start deleteCount new_items xs =
     (let len = int (length xs);
          s = (if start < 0 then max (len + start) 0 else min start len);
          d = min (max deleteCount 0) (len - s)
      in take (nat s) xs @ new_items @ drop (nat (s + d)) xs)"

section \<open>The form state and its operations\<close>

text \<open>
  \<open>form_values\<close> and \<open>form_errors\<close> are the contents of the two state cells of the hook.
  The setters \<open>setValues\<close> and \<open>setErrors\<close> act on the cells: an updater gets the current
  content of its cell. Every operation of the hook is a closure of one render, and the
  \<open>values\<close> and \<open>errors\<close> it reads are the stores that render saw: they are the first
  arguments of the operations that read them. Right after a render, with no update
  pending, \<open>values\<close> is \<open>form_values\<close> of the state and \<open>errors\<close> is \<open>form_errors\<close>.
  \<open>values_ref\<close> is the identity of the object held by the \<open>values\<close> cell: an updater that
  returns an object literal puts a new object into the cell, which gets the next number.
\<close>

record form_state =
  form_values :: props
  form_errors :: props
  values_ref :: nat

text \<open>What a React state setter accepts: the new state or an updater of the current one.\<close>

datatype 'a set_state_action = NewState 'a | Updater "'a \<Rightarrow> 'a"

definition setErrors :: "props set_state_action \<Rightarrow> form_state \<Rightarrow> form_state" where
  "setErrors action st =
     st\<lparr>form_errors := (case action of NewState e \<Rightarrow> e | Updater f \<Rightarrow> f (form_errors st))\<rparr>"

definition clearErrors :: "form_state \<Rightarrow> form_state" where
  "clearErrors st = setErrors (NewState []) st"

definition setFieldError :: "string \<Rightarrow> jsval \<Rightarrow> form_state \<Rightarrow> form_state" where
  "setFieldError field error st =
     setErrors (Updater (\<lambda>current. AList.update field error current)) st"

definition clearFieldError :: "string \<Rightarrow> form_state \<Rightarrow> form_state" where
  "clearFieldError field st =
     setErrors (Updater (\<lambda>current. AList.delete field current)) st"

definition setFieldValue :: "string \<Rightarrow> jsval \<Rightarrow> form_state \<Rightarrow> form_state" where
  "setFieldValue field v st =
     clearFieldError field
       (st\<lparr>form_values := AList.update field v (form_values st),
           values_ref := Suc (values_ref st)\<rparr>)"

definition setListItem ::
  "props \<Rightarrow> string \<Rightarrow> int \<Rightarrow> jsval \<Rightarrow> form_state \<Rightarrow> form_state" where
  "setListItem values field index v st =
     (let list = prop_get values field
      in if isFormList list \<and> nth_js (items list) index \<noteq> JUndefined
         then (let cloned = items list;
                   cloned = cloned[nat index := v]
               in setFieldValue field (formList cloned) st)
         else st)"

text \<open>The second argument of \<open>removeListItem\<close>, of type \<open>number[] | number\<close>.\<close>

datatype indices = Index int | Indices "int list"

definition keeps :: "indices \<Rightarrow> int \<Rightarrow> bool" where
  "keeps ids index =
     (case ids of Indices is \<Rightarrow> index \<notin> set is | Index i \<Rightarrow> i \<noteq> index)"

definition removeListItem ::
  "props \<Rightarrow> string \<Rightarrow> indices \<Rightarrow> form_state \<Rightarrow> form_state" where
  "removeListItem values field ids st =
     (let list = prop_get values field
      in if isFormList list
         then setFieldValue field
                (formList (js_filter (\<lambda>_ index. keeps ids index) 0 (items list))) st
         else st)"

definition addListItem ::
  "props \<Rightarrow> string \<Rightarrow> jsval \<Rightarrow> form_state \<Rightarrow> form_state" where
  "addListItem values field payload st =
     (let list = prop_get values field
      in if isFormList list
         then setFieldValue field (formList (items list @ [payload])) st
         else st)"

definition reorderListItem ::
  "props \<Rightarrow> string \<Rightarrow> int \<Rightarrow> int \<Rightarrow> form_state \<Rightarrow> form_state" where
  "reorderListItem values field from to st =
     (let list = prop_get values field
      in if isFormList list \<and> nth_js (items list) from \<noteq> JUndefined
            \<and> nth_js (items list) to \<noteq> JUndefined
         then (let cloned = items list;
                   item = nth_js (items list) from;
                   cloned = js_splice from 1 [] cloned;
                   cloned = js_splice to 0 [item] cloned
               in setFieldValue field (formList cloned) st)
         else st)"

section \<open>Validation and submission\<close>

text \<open>
  \<open>validate-values/validate-values.ts\<close> is imported by the hook and absent from the
  sources, so \<open>validateValues\<close> is a parameter of \<open>validate\<close> and \<open>onSubmit\<close>: any function
  from the rules and the values to a result \<open>{ errors, hasErrors }\<close>.
\<close>

record validation_result =
  result_errors :: props
  hasErrors :: bool

definition validate ::
  "('rules \<Rightarrow> props \<Rightarrow> validation_result) \<Rightarrow> 'rules \<Rightarrow> props \<Rightarrow> form_state
     \<Rightarrow> validation_result \<times> form_state" where
  "validate validateValues rules values st =
     (let results = validateValues rules values
      in (results, setErrors (NewState (result_errors results)) st))"

text \<open>The submit event, as far as the hook touches it: \<open>preventDefault()\<close> marks it.\<close>

record form_event =
  defaultPrevented :: bool

definition preventDefault :: "form_event \<Rightarrow> form_event" where
  "preventDefault e = e\<lparr>defaultPrevented := True\<rparr>"

text \<open>
  What one run of the handler returned by \<open>onSubmit(handleSubmit)\<close> leaves behind: the
  state, the event, and the arguments \<open>handleSubmit\<close> was called with, if it was called.
  The handler's argument is \<open>None\<close> when it is invoked with no event.
\<close>

record submit_outcome =
  submit_state :: form_state
  submit_event :: form_event
  handleSubmit_call :: "(props \<times> form_event) option"

definition onSubmit ::
  "('rules \<Rightarrow> props \<Rightarrow> validation_result) \<Rightarrow> 'rules \<Rightarrow> props \<Rightarrow> form_event option
     \<Rightarrow> form_state \<Rightarrow> js_error + submit_outcome" where
  "onSubmit validateValues rules values event st =
     (case event of
        None \<Rightarrow> Inl TypeError
      | Some e \<Rightarrow>
          (let e' = preventDefault e;
               (results, st') = validate validateValues rules values st
           in Inr \<lparr>submit_state = st', submit_event = e',
                   handleSubmit_call =
                     (if \<not> hasErrors results then Some (values, e') else None)\<rparr>))"

section \<open>Input bindings\<close>

text \<open>
  Modelled from the spec: "the argument exposes a target", of the rule for
  \<open>getInputOnChange\<close> below, is read as: the value is an object that has the key.
\<close>

definition exposes :: "jsval \<Rightarrow> string \<Rightarrow> bool" where
  "exposes v key = (case v of JObj ps \<Rightarrow> map_of ps key \<noteq> None | _ \<Rightarrow> False)"

text \<open>
  Modelled from the spec: \<open>get-input-on-change/get-input-on-change.ts\<close> is imported by the
  hook and absent from the sources. The spec's rule: "if the argument exposes a target
  with a type matching checkbox, read target.checked; else if it exposes target.value,
  read that; else treat the argument itself as the raw value".
\<close>

definition getInputOnChange :: "(jsval \<Rightarrow> 'a) \<Rightarrow> jsval \<Rightarrow> 'a" where
  "getInputOnChange setValue arg =
     (let target = opt_field arg ''target''
      in if exposes arg ''target'' \<and> opt_field target ''type'' = JStr ''checkbox''
         then setValue (opt_field target ''checked'')
         else if exposes arg ''target'' \<and> exposes target ''value''
         then setValue (opt_field target ''value'')
         else setValue arg)"

datatype input_type = Checkbox | Input

text \<open>The options \<open>{ type, withError }\<close>; a key that is not given is \<open>None\<close>.\<close>

record input_options =
  opt_type :: "input_type option"
  opt_withError :: "bool option"

text \<open>
  The descriptor; a key the payload does not have is \<open>None\<close>. The change handler takes
  what the control passes it and acts on the state cells.
\<close>

record input_props =
  p_checked :: "jsval option"
  p_value :: "jsval option"
  p_onChange :: "jsval \<Rightarrow> form_state \<Rightarrow> form_state"
  p_error :: "jsval option"

text \<open>\<open>Inr None\<close> is the result \<open>undefined\<close>, \<open>Inl\<close> an exception.\<close>

definition getListInputProps ::
  "props \<Rightarrow> props \<Rightarrow> string \<Rightarrow> int \<Rightarrow> string \<Rightarrow> input_options
     \<Rightarrow> js_error + input_props option" where
  "getListInputProps values errors field index listField options =
     (let withError = (case opt_withError options of None \<Rightarrow> True | Some b \<Rightarrow> b);
          list = prop_get values field
      in if isFormList list
         then (let listValue = nth_js (items list) index
               in case js_member listValue listField of
                    Inl e \<Rightarrow> Inl e
                  | Inr value \<Rightarrow>
                      (let onChange = getInputOnChange (\<lambda>val.
                             setListItem values field index
                               (JObj (AList.update listField val (spread value))));
                           payload =
                             (if opt_type options = Some Checkbox
                              then \<lparr>p_checked = Some value, p_value = None,
                                    p_onChange = onChange, p_error = None\<rparr>
                              else \<lparr>p_checked = None, p_value = Some value,
                                    p_onChange = onChange, p_error = None\<rparr>);
                           error = opt_field (opt_index (prop_get errors field) index)
                                     listField
                       in Inr (Some (if withError \<and> js_truthy error
                                     then payload\<lparr>p_error := Some error\<rparr>
                                     else payload))))
         else Inr None)"

section \<open>The vocabulary of the specification\<close>

text \<open>
  The definitions of this section are not taken from the code: they say in HOL what the
  specification says in words, and the theorems compare the code with them.
\<close>

text \<open>"Removes the item at \<open>from\<close>": the sequence without its \<open>n\<close>-th item.\<close>

fun remove_at :: "nat \<Rightarrow> 'a list \<Rightarrow> 'a list" where
  "remove_at n [] = []"
| "remove_at 0 (x # xs) = xs"
| "remove_at (Suc n) (x # xs) = x # remove_at n xs"

text \<open>"Reinserts it at position \<open>to\<close>": \<open>y\<close> becomes the \<open>n\<close>-th item.\<close>

fun insert_at :: "nat \<Rightarrow> 'a \<Rightarrow> 'a list \<Rightarrow> 'a list" where
  "insert_at 0 y xs = y # xs"
| "insert_at (Suc n) y [] = [y]"
| "insert_at (Suc n) y (x # xs) = x # insert_at n y xs"

text \<open>The move of the specification: removal first, insertion into what remains.\<close>

definition move_item :: "nat \<Rightarrow> nat \<Rightarrow> 'a list \<Rightarrow> 'a list" where
  "move_item from to xs = insert_at to (xs ! from) (remove_at from xs)"

text \<open>The removal set that \<open>removeListItem\<close> is given, as a single index or as several.\<close>

definition removal_set :: "indices \<Rightarrow> int set" where
  "removal_set ids = (case ids of Index i \<Rightarrow> {i} | Indices is \<Rightarrow> set is)"

text \<open>An index references an existing item of a list of \<open>n\<close> items.\<close>

definition in_range :: "nat \<Rightarrow> int \<Rightarrow> bool" where
  "in_range n i = (0 \<le> i \<and> i < int n)"

text \<open>The invariant of the error store: no key holds a falsy error.\<close>

definition error_store_ok :: "props \<Rightarrow> bool" where
  "error_store_ok errors = list_all (\<lambda>entry. js_truthy (snd entry)) errors"

text \<open>A list item with the one subfield \<open>name\<close>, for the worked examples.\<close>

abbreviation item :: "string \<Rightarrow> jsval" where
  "item name \<equiv> JObj [(''name'', JStr name)]"

section \<open>Basic facts\<close>

lemma prop_get_update:
  "prop_get (AList.update k v ps) k' = (if k' = k then v else prop_get ps k')"
  by (simp add: prop_get_def update_conv')

lemma setFieldValue_values:
  "form_values (setFieldValue field v st) = AList.update field v (form_values st)"
  by (simp add: setFieldValue_def clearFieldError_def setErrors_def)

lemma setFieldValue_errors:
  "form_errors (setFieldValue field v st) = AList.delete field (form_errors st)"
  by (simp add: setFieldValue_def clearFieldError_def setErrors_def)

lemma setFieldValue_ref: "values_ref (setFieldValue field v st) = Suc (values_ref st)"
  by (simp add: setFieldValue_def clearFieldError_def setErrors_def)

lemma setFieldValue_stored: "prop_get (form_values (setFieldValue field v st)) field = v"
  by (simp add: setFieldValue_values prop_get_update)

lemma nth_js_defined: "nth_js xs i \<noteq> JUndefined \<Longrightarrow> 0 \<le> i \<and> i < int (length xs)"
  by (simp add: nth_js_def split: if_splits)

lemma nth_js_outside: "\<not> in_range (length xs) i \<Longrightarrow> nth_js xs i = JUndefined"
  by (auto simp: nth_js_def in_range_def)

section \<open>Setting a field\<close>

text \<open>
  Claim C7. For every field and value, \<open>setFieldValue(field, value)\<close> yields a new value
  store in which the value is stored at the field and every other field keeps its value,
  and the error store loses the key of the field (and nothing else). The stores are
  compared as maps from keys to values; the object in the \<open>values\<close> cell is a new one.
\<close>

theorem setFieldValue_stores_value_and_clears_error:
  "map_of (form_values (setFieldValue field v st)) = (map_of (form_values st))(field \<mapsto> v)
   \<and> map_of (form_errors (setFieldValue field v st)) = (map_of (form_errors st))(field := None)
   \<and> values_ref (setFieldValue field v st) \<noteq> values_ref st"
  by (simp add: setFieldValue_values setFieldValue_errors setFieldValue_ref
      update_conv' delete_conv')

section \<open>Reordering a list\<close>

lemma remove_at_take_drop: "remove_at n xs = take n xs @ drop (Suc n) xs"
  by (induction n xs rule: remove_at.induct) simp_all

lemma insert_at_take_drop:
  "n \<le> length xs \<Longrightarrow> insert_at n y xs = take n xs @ y # drop n xs"
  by (induction n y xs rule: insert_at.induct) simp_all

lemma length_remove_at: "n < length xs \<Longrightarrow> length (remove_at n xs) = length xs - 1"
  by (simp add: remove_at_take_drop)

text \<open>The move keeps the length and puts the moved item at position \<open>to\<close>.\<close>

lemma length_insert_at: "length (insert_at n y xs) = Suc (length xs)"
  by (induction n y xs rule: insert_at.induct) simp_all

lemma nth_insert_at: "n \<le> length xs \<Longrightarrow> insert_at n y xs ! n = y"
  by (induction n y xs rule: insert_at.induct) simp_all

lemma move_item_length: "from < length xs \<Longrightarrow> length (move_item from to xs) = length xs"
  by (simp add: move_item_def length_insert_at length_remove_at)

lemma move_item_nth:
  "from < length xs \<Longrightarrow> to < length xs \<Longrightarrow> move_item from to xs ! to = xs ! from"
  by (simp add: move_item_def nth_insert_at length_remove_at)

lemma js_splice_remove:
  "0 \<le> i \<Longrightarrow> i < int (length xs) \<Longrightarrow> js_splice i 1 [] xs = remove_at (nat i) xs"
  by (simp add: js_splice_def remove_at_take_drop Let_def min_def max_def nat_add_distrib)

lemma js_splice_insert:
  "0 \<le> i \<Longrightarrow> i \<le> int (length ys) \<Longrightarrow> js_splice i 0 [y] ys = insert_at (nat i) y ys"
  by (simp add: js_splice_def insert_at_take_drop Let_def min_def max_def)

text \<open>
  Claim C4. On a list-tagged field with items \<open>xs\<close>: when \<open>from\<close> and \<open>to\<close> both reference
  existing items (\<open>list[from]\<close> and \<open>list[to]\<close> are not \<open>undefined\<close>),
  \<open>reorderListItem(field, {from, to})\<close> stores the tagged list obtained by removing the
  item at \<open>from\<close> and inserting it at position \<open>to\<close> of what remains; when either index is
  out of range the state is returned as it was.
\<close>

theorem reorderListItem_moves:
  assumes "prop_get values field = JArr True xs"
  shows "(nth_js xs from \<noteq> JUndefined \<and> nth_js xs to \<noteq> JUndefined \<longrightarrow>
            prop_get (form_values (reorderListItem values field from to st)) field
              = JArr True (move_item (nat from) (nat to) xs))
       \<and> (\<not> in_range (length xs) from \<or> \<not> in_range (length xs) to \<longrightarrow>
            reorderListItem values field from to st = st)"
proof (intro conjI impI)
  assume ex: "nth_js xs from \<noteq> JUndefined \<and> nth_js xs to \<noteq> JUndefined"
  then have f: "0 \<le> from" "from < int (length xs)" and t: "0 \<le> to" "to < int (length xs)"
    using nth_js_defined by blast+
  have rem: "js_splice from 1 [] xs = remove_at (nat from) xs"
    using f by (rule js_splice_remove)
  have "to \<le> int (length (remove_at (nat from) xs))"
    using f t by (simp add: length_remove_at)
  then have ins: "js_splice to 0 [xs ! nat from] (remove_at (nat from) xs)
      = insert_at (nat to) (xs ! nat from) (remove_at (nat from) xs)"
    using t by (simp add: js_splice_insert)
  have item: "nth_js xs from = xs ! nat from"
    using f by (simp add: nth_js_def)
  show "prop_get (form_values (reorderListItem values field from to st)) field
          = JArr True (move_item (nat from) (nat to) xs)"
    using assms ex
    by (simp add: reorderListItem_def isFormList_def items_def Let_def rem item ins
        setFieldValue_stored formList_def move_item_def)
next
  assume "\<not> in_range (length xs) from \<or> \<not> in_range (length xs) to"
  then have "nth_js xs from = JUndefined \<or> nth_js xs to = JUndefined"
    using nth_js_outside by blast
  then show "reorderListItem values field from to st = st"
    using assms by (auto simp: reorderListItem_def isFormList_def items_def Let_def)
qed

text \<open>
  The example of the specification: on \<open>[A, B, C, D]\<close>, \<open>{from: 0, to: 2}\<close> yields
  \<open>[B, C, A, D]\<close>; \<open>{from: 0, to: 4}\<close> changes nothing.
\<close>

theorem reorderListItem_moves_witness:
  "prop_get [(''list'', JArr True [item ''A'', item ''B'', item ''C'', item ''D''])] ''list''
     = JArr True [item ''A'', item ''B'', item ''C'', item ''D'']
   \<and> prop_get (form_values (reorderListItem
         [(''list'', JArr True [item ''A'', item ''B'', item ''C'', item ''D''])] ''list'' 0 2
         \<lparr>form_values = [(''list'', JArr True [item ''A'', item ''B'', item ''C'', item ''D''])],
          form_errors = [], values_ref = 0\<rparr>)) ''list''
     = JArr True [item ''B'', item ''C'', item ''A'', item ''D'']
   \<and> reorderListItem
         [(''list'', JArr True [item ''A'', item ''B'', item ''C'', item ''D''])] ''list'' 0 4
         \<lparr>form_values = [(''list'', JArr True [item ''A'', item ''B'', item ''C'', item ''D''])],
          form_errors = [], values_ref = 0\<rparr>
     = \<lparr>form_values = [(''list'', JArr True [item ''A'', item ''B'', item ''C'', item ''D''])],
        form_errors = [], values_ref = 0\<rparr>"
proof -
  let ?xs = "[item ''A'', item ''B'', item ''C'', item ''D'']"
  let ?vs = "[(''list'', JArr True ?xs)]"
  let ?st = "\<lparr>form_values = ?vs, form_errors = [], values_ref = 0\<rparr>"
  have h: "prop_get ?vs ''list'' = JArr True ?xs"
    by (simp add: prop_get_def)
  have mv: "move_item 0 2 ?xs = [item ''B'', item ''C'', item ''A'', item ''D'']"
    by (simp add: move_item_def numeral_2_eq_2)
  show ?thesis
    using h reorderListItem_moves [OF h, of 0 2 ?st] reorderListItem_moves [OF h, of 0 4 ?st]
    by (simp add: mv nth_js_def in_range_def)
qed

section \<open>Removing list items\<close>

lemma js_filter_nths:
  "js_filter (\<lambda>_ j. P j) k xs = nths xs {n. P (k + int n)}"
proof (induction xs arbitrary: k)
  case Nil
  show ?case by simp
next
  case (Cons x xs)
  have shift: "\<And>j. k + int (Suc j) = k + 1 + int j"
    by simp
  have tl: "js_filter (\<lambda>_ j. P j) (k + 1) xs = nths xs {j. Suc j \<in> {n. P (k + int n)}}"
    unfolding Cons.IH mem_Collect_eq shift ..
  show ?case
    unfolding js_filter.simps tl nths_Cons by simp
qed

lemma nths_drop_one:
  assumes "n < length xs"
  shows "length (nths xs {m. m \<noteq> n}) = length xs - 1"
proof -
  have "{i. i < length xs \<and> i \<in> {m. m \<noteq> n}} = {..<length xs} - {n}"
    by auto
  then have "length (nths xs {m. m \<noteq> n}) = card ({..<length xs} - {n})"
    by (simp add: length_nths)
  also have "\<dots> = length xs - 1"
    using assms by simp
  finally show ?thesis .
qed

lemma keeps_removal_set: "keeps ids j \<longleftrightarrow> j \<notin> removal_set ids"
  by (cases ids) (auto simp: keeps_def removal_set_def)

lemma removeListItem_tagged:
  assumes "prop_get values field = JArr True xs"
  shows "removeListItem values field ids st
           = setFieldValue field (formList (nths xs {n. int n \<notin> removal_set ids})) st"
  using assms
  by (simp add: removeListItem_def isFormList_def items_def js_filter_nths keeps_removal_set)

lemma addListItem_tagged:
  assumes "prop_get values field = JArr True xs"
  shows "addListItem values field payload st = setFieldValue field (formList (xs @ [payload])) st"
  using assms by (simp add: addListItem_def isFormList_def items_def)

lemma nths_all_outside:
  assumes "\<forall>i \<in> A. \<not> in_range (length xs) i"
  shows "nths xs {n. int n \<notin> A} = xs"
proof (rule nths_all, intro allI impI)
  fix n assume "n < length xs"
  then have "in_range (length xs) (int n)"
    by (simp add: in_range_def)
  with assms show "n \<in> {n. int n \<notin> A}"
    by blast
qed

text \<open>
  Claim C5. On a list-tagged field with items \<open>xs\<close>, \<open>removeListItem(field, indices)\<close>, given
  one index or several, stores the tagged list of exactly the items whose original index
  is not in the removal set, in their original order (\<open>nths\<close> selects the items at a set of
  positions); for a single valid index the result is one item shorter; when no given index
  is valid the stored list has the same items and is still tagged.
\<close>

theorem removeListItem_retains_other_items:
  assumes "prop_get values field = JArr True xs"
  shows "prop_get (form_values (removeListItem values field ids st)) field
           = JArr True (nths xs {n. int n \<notin> removal_set ids})
       \<and> (in_range (length xs) i \<and> (ids = Index i \<or> ids = Indices [i]) \<longrightarrow>
            length (items (prop_get (form_values (removeListItem values field ids st)) field))
              = length xs - 1)
       \<and> ((\<forall>j \<in> removal_set ids. \<not> in_range (length xs) j) \<longrightarrow>
            prop_get (form_values (removeListItem values field ids st)) field = JArr True xs)"
proof -
  have stored: "prop_get (form_values (removeListItem values field ids st)) field
           = JArr True (nths xs {n. int n \<notin> removal_set ids})"
    by (simp add: removeListItem_tagged [OF assms] setFieldValue_stored formList_def)
  have single: "length (items (prop_get (form_values (removeListItem values field ids st)) field))
              = length xs - 1"
    if i: "in_range (length xs) i" and ids: "ids = Index i \<or> ids = Indices [i]"
  proof -
    have "removal_set ids = {i}"
      using ids by (auto simp: removal_set_def)
    moreover have "{n. int n \<notin> {i}} = {m. m \<noteq> nat i}"
      using i by (auto simp: in_range_def)
    moreover have "nat i < length xs"
      using i by (auto simp: in_range_def)
    ultimately show ?thesis
      by (simp add: stored items_def nths_drop_one)
  qed
  have invalid: "prop_get (form_values (removeListItem values field ids st)) field = JArr True xs"
    if "\<forall>j \<in> removal_set ids. \<not> in_range (length xs) j"
    using that by (simp add: stored nths_all_outside)
  show ?thesis
    using stored single invalid by blast
qed

text \<open>
  On \<open>[A, B, C]\<close>: removing \<open>[0, 2]\<close> leaves \<open>[B]\<close>, removing \<open>1\<close> leaves two items,
  removing \<open>7\<close> leaves \<open>[A, B, C]\<close>.
\<close>

theorem removeListItem_retains_other_items_witness:
  "prop_get [(''list'', JArr True [item ''A'', item ''B'', item ''C''])] ''list''
     = JArr True [item ''A'', item ''B'', item ''C'']
   \<and> prop_get (form_values (removeListItem
         [(''list'', JArr True [item ''A'', item ''B'', item ''C''])] ''list'' (Indices [0, 2])
         \<lparr>form_values = [(''list'', JArr True [item ''A'', item ''B'', item ''C''])],
          form_errors = [], values_ref = 0\<rparr>)) ''list''
     = JArr True [item ''B'']
   \<and> length (items (prop_get (form_values (removeListItem
         [(''list'', JArr True [item ''A'', item ''B'', item ''C''])] ''list'' (Index 1)
         \<lparr>form_values = [(''list'', JArr True [item ''A'', item ''B'', item ''C''])],
          form_errors = [], values_ref = 0\<rparr>)) ''list'')) = 2
   \<and> prop_get (form_values (removeListItem
         [(''list'', JArr True [item ''A'', item ''B'', item ''C''])] ''list'' (Index 7)
         \<lparr>form_values = [(''list'', JArr True [item ''A'', item ''B'', item ''C''])],
          form_errors = [], values_ref = 0\<rparr>)) ''list''
     = JArr True [item ''A'', item ''B'', item ''C'']"
proof -
  let ?xs = "[item ''A'', item ''B'', item ''C'']"
  let ?vs = "[(''list'', JArr True ?xs)]"
  let ?st = "\<lparr>form_values = ?vs, form_errors = [], values_ref = 0\<rparr>"
  have h: "prop_get ?vs ''list'' = JArr True ?xs"
    by (simp add: prop_get_def)
  have several: "nths ?xs {n. int n \<notin> removal_set (Indices [0, 2])} = [item ''B'']"
    by (simp add: nths_Cons removal_set_def)
  have "prop_get (form_values (removeListItem ?vs ''list'' (Indices [0, 2]) ?st)) ''list''
      = JArr True (nths ?xs {n. int n \<notin> removal_set (Indices [0, 2])})"
    using removeListItem_retains_other_items [OF h, of "Indices [0, 2]" ?st 0] by blast
  then have a: "prop_get (form_values (removeListItem ?vs ''list'' (Indices [0, 2]) ?st)) ''list''
      = JArr True [item ''B'']"
    by (simp only: several)
  have "in_range (length ?xs) 1"
    by (simp add: in_range_def)
  then have "length (items (prop_get (form_values (removeListItem ?vs ''list'' (Index 1) ?st))
      ''list'')) = length ?xs - 1"
    using removeListItem_retains_other_items [OF h, of "Index 1" ?st 1] by blast
  then have b: "length (items (prop_get (form_values (removeListItem ?vs ''list'' (Index 1) ?st))
      ''list'')) = 2"
    by simp
  have "\<forall>j \<in> removal_set (Index 7). \<not> in_range (length ?xs) j"
    by (simp add: removal_set_def in_range_def)
  then have c: "prop_get (form_values (removeListItem ?vs ''list'' (Index 7) ?st)) ''list''
      = JArr True ?xs"
    using removeListItem_retains_other_items [OF h, of "Index 7" ?st 7] by blast
  show ?thesis
    using h a b c by blast
qed

section \<open>Adding and then removing an item\<close>

text \<open>
  Claim C6. On a list-tagged field with items \<open>xs\<close>, \<open>addListItem(field, payload)\<close> followed
  by \<open>removeListItem(field, i)\<close> for the index \<open>i = length xs\<close> of the new item, given as a
  number or as \<open>[i]\<close>, stores a tagged list with the items of the original list. This
  holds when the removal is the closure of the render that shows the new item, and also
  when it is still the closure of the render before the addition.
\<close>

theorem addListItem_then_removeListItem:
  assumes "prop_get values field = JArr True xs"
    and "ids = Index (int (length xs)) \<or> ids = Indices [int (length xs)]"
  shows "(let added = addListItem values field payload st
          in prop_get (form_values added) field = JArr True (xs @ [payload])
           \<and> prop_get (form_values (removeListItem (form_values added) field ids added)) field
               = JArr True xs
           \<and> prop_get (form_values (removeListItem values field ids added)) field
               = JArr True xs)"
proof -
  let ?added = "addListItem values field payload st"
  have added: "prop_get (form_values ?added) field = JArr True (xs @ [payload])"
    by (simp add: addListItem_tagged [OF assms(1)] setFieldValue_stored formList_def)
  have ids: "removal_set ids = {int (length xs)}"
    using assms(2) by (auto simp: removal_set_def)
  have last_only: "nths (xs @ [payload]) {n. n \<noteq> length xs} = xs"
    by (simp add: nths_append nths_all)
  have rerendered:
    "prop_get (form_values (removeListItem (form_values ?added) field ids ?added)) field
       = JArr True xs"
    by (simp add: removeListItem_tagged [OF added] setFieldValue_stored formList_def ids
        last_only)
  have "nths xs {n. n \<noteq> length xs} = xs"
    by (simp add: nths_all)
  then have stale: "prop_get (form_values (removeListItem values field ids ?added)) field
       = JArr True xs"
    by (simp add: removeListItem_tagged [OF assms(1)] setFieldValue_stored formList_def ids)
  show ?thesis
    using added rerendered stale by (simp add: Let_def)
qed

text \<open>On \<open>[A, B]\<close>: adding \<open>C\<close> gives \<open>[A, B, C]\<close>, removing index \<open>2\<close> gives \<open>[A, B]\<close> back.\<close>

theorem addListItem_then_removeListItem_witness:
  "prop_get [(''list'', JArr True [item ''A'', item ''B''])] ''list''
     = JArr True [item ''A'', item ''B'']
   \<and> form_values (addListItem [(''list'', JArr True [item ''A'', item ''B''])] ''list'' (item ''C'')
         \<lparr>form_values = [(''list'', JArr True [item ''A'', item ''B''])],
          form_errors = [], values_ref = 0\<rparr>)
     = [(''list'', JArr True [item ''A'', item ''B'', item ''C''])]
   \<and> prop_get (form_values (removeListItem
         [(''list'', JArr True [item ''A'', item ''B'', item ''C''])] ''list'' (Index 2)
         (addListItem [(''list'', JArr True [item ''A'', item ''B''])] ''list'' (item ''C'')
           \<lparr>form_values = [(''list'', JArr True [item ''A'', item ''B''])],
            form_errors = [], values_ref = 0\<rparr>))) ''list''
     = JArr True [item ''A'', item ''B'']"
proof -
  let ?xs = "[item ''A'', item ''B'']"
  let ?vs = "[(''list'', JArr True ?xs)]"
  let ?st = "\<lparr>form_values = ?vs, form_errors = [], values_ref = 0\<rparr>"
  have h: "prop_get ?vs ''list'' = JArr True ?xs"
    by (simp add: prop_get_def)
  have ids: "Index 2 = Index (int (length ?xs)) \<or> Index 2 = Indices [int (length ?xs)]"
    by simp
  have added: "form_values (addListItem ?vs ''list'' (item ''C'') ?st)
      = [(''list'', JArr True [item ''A'', item ''B'', item ''C''])]"
    by (simp add: addListItem_tagged [OF h] setFieldValue_values formList_def)
  show ?thesis
    using h added addListItem_then_removeListItem [OF h ids, of "item ''C''" ?st]
    by (simp add: Let_def)
qed

section \<open>A removal of invalid indices is not a no-op\<close>

text \<open>
  Claim C10. On a list-tagged field, \<open>removeListItem(field, indices)\<close> always goes through
  \<open>setFieldValue\<close>. When every given index is out of range, it therefore stores a tagged
  list with the same items, removes the key of the field from the error store and puts a
  new object into the \<open>values\<close> cell: the state after it is not the state before it.
\<close>

theorem removeListItem_invalid_indices_not_noop:
  assumes "prop_get values field = JArr True xs"
  shows "removeListItem values field ids st
           = setFieldValue field (formList (nths xs {n. int n \<notin> removal_set ids})) st
       \<and> ((\<forall>j \<in> removal_set ids. \<not> in_range (length xs) j) \<longrightarrow>
            removeListItem values field ids st = setFieldValue field (formList xs) st
          \<and> prop_get (form_values (removeListItem values field ids st)) field = JArr True xs
          \<and> map_of (form_errors (removeListItem values field ids st))
              = (map_of (form_errors st))(field := None)
          \<and> values_ref (removeListItem values field ids st) \<noteq> values_ref st
          \<and> removeListItem values field ids st \<noteq> st)"
proof (intro conjI impI)
  show routed: "removeListItem values field ids st
      = setFieldValue field (formList (nths xs {n. int n \<notin> removal_set ids})) st"
    by (rule removeListItem_tagged [OF assms])
  assume "\<forall>j \<in> removal_set ids. \<not> in_range (length xs) j"
  then have same: "nths xs {n. int n \<notin> removal_set ids} = xs"
    by (rule nths_all_outside)
  show eq: "removeListItem values field ids st = setFieldValue field (formList xs) st"
    using routed same by simp
  show "prop_get (form_values (removeListItem values field ids st)) field = JArr True xs"
    by (simp add: eq setFieldValue_stored formList_def)
  show "map_of (form_errors (removeListItem values field ids st))
      = (map_of (form_errors st))(field := None)"
    by (simp add: eq setFieldValue_errors delete_conv')
  show ref: "values_ref (removeListItem values field ids st) \<noteq> values_ref st"
    by (simp add: eq setFieldValue_ref)
  then show "removeListItem values field ids st \<noteq> st"
    by auto
qed

text \<open>
  Removing index \<open>5\<close> of \<open>[A, B]\<close> while the field has an error: the items stay, the error
  is gone and the \<open>values\<close> cell holds a new object.
\<close>

theorem removeListItem_invalid_indices_not_noop_witness:
  "prop_get [(''list'', JArr True [item ''A'', item ''B''])] ''list''
     = JArr True [item ''A'', item ''B'']
   \<and> removeListItem [(''list'', JArr True [item ''A'', item ''B''])] ''list'' (Index 5)
         \<lparr>form_values = [(''list'', JArr True [item ''A'', item ''B''])],
          form_errors = [(''list'', JStr ''too short'')], values_ref = 0\<rparr>
     = \<lparr>form_values = [(''list'', JArr True [item ''A'', item ''B''])],
        form_errors = [], values_ref = 1\<rparr>"
proof -
  let ?xs = "[item ''A'', item ''B'']"
  let ?vs = "[(''list'', JArr True ?xs)]"
  let ?st = "\<lparr>form_values = ?vs, form_errors = [(''list'', JStr ''too short'')], values_ref = 0\<rparr>"
  have h: "prop_get ?vs ''list'' = JArr True ?xs"
    by (simp add: prop_get_def)
  have invalid: "\<forall>j \<in> removal_set (Index 5). \<not> in_range (length ?xs) j"
    by (simp add: removal_set_def in_range_def)
  have "removeListItem ?vs ''list'' (Index 5) ?st = setFieldValue ''list'' (formList ?xs) ?st"
    using removeListItem_invalid_indices_not_noop [OF h, of "Index 5" ?st] invalid by blast
  then show ?thesis
    using h
    by (simp add: setFieldValue_def clearFieldError_def setErrors_def formList_def)
qed

section \<open>Submission\<close>

lemma validate_results:
  "fst (validate validateValues rules values st) = validateValues rules values"
  by (simp add: validate_def Let_def)

text \<open>
  Claim C8. For every values snapshot and rule set, the handler returned by
  \<open>onSubmit(handleSubmit)\<close>, run on an event, returns normally and calls \<open>handleSubmit\<close>
  if and only if \<open>validateValues(rules, values)\<close>, the full validation of the snapshot,
  reports \<open>hasErrors\<close> false: it is not called when \<open>hasErrors\<close> is true, and it is called,
  with the snapshot and the event, when it is false. That result is the one \<open>validate()\<close>
  returns; the handler leaves its errors in the error store, the values cell as it was,
  and the event with its default prevented.
\<close>

theorem onSubmit_calls_handleSubmit_iff_no_errors:
  "\<exists>out. onSubmit validateValues rules values (Some e) st = Inr out
     \<and> (handleSubmit_call out \<noteq> None) = (\<not> hasErrors (validateValues rules values))
     \<and> handleSubmit_call out
         = (if hasErrors (validateValues rules values) then None
            else Some (values, preventDefault e))
     \<and> fst (validate validateValues rules values st) = validateValues rules values
     \<and> submit_state out = snd (validate validateValues rules values st)
     \<and> form_errors (submit_state out) = result_errors (validateValues rules values)
     \<and> form_values (submit_state out) = form_values st
     \<and> values_ref (submit_state out) = values_ref st
     \<and> submit_event out = preventDefault e"
  by (simp add: onSubmit_def validate_def setErrors_def Let_def)

text \<open>
  Claim C9. The handler returned by \<open>onSubmit\<close> is declared with an optional event, but run
  with no event it raises a \<open>TypeError\<close> at \<open>event.preventDefault()\<close>, whatever the rules and
  the values are: validation does not run and \<open>handleSubmit\<close> is not called.
\<close>

theorem onSubmit_without_event_raises:
  "onSubmit validateValues rules values None st = Inl TypeError"
  by (simp add: onSubmit_def)

section \<open>Bindings of list items\<close>

text \<open>
  Claim C1 says that the change handler of \<open>getListInputProps(field, index, subfield)\<close>
  merges the new subfield value into the existing item, so that the other subfields of
  the item stay. The handler spreads \<open>value\<close>, the current value of the subfield, not
  \<open>listValue\<close>, the item. On the list \<open>[{name: 'Bob', age: 5}]\<close> the handler of
  \<open>getListInputProps('list', 0, 'age')\<close>, given \<open>6\<close>, stores the item \<open>{age: 6}\<close>: the subfield
  \<open>name\<close>, which read \<open>'Bob'\<close>, now reads \<open>undefined\<close>.
\<close>

theorem getListInputProps_onChange_loses_subfields:
  "(case getListInputProps
           [(''list'', JArr True [JObj [(''name'', JStr ''Bob''), (''age'', JNum 5)]])] []
           ''list'' 0 ''age'' \<lparr>opt_type = None, opt_withError = None\<rparr> of
      Inr (Some payload) \<Rightarrow>
        p_value payload = Some (JNum 5)
        \<and> prop_get (form_values (p_onChange payload (JNum 6)
            \<lparr>form_values = [(''list'', JArr True [JObj [(''name'', JStr ''Bob''), (''age'', JNum 5)]])],
             form_errors = [], values_ref = 0\<rparr>)) ''list''
            = JArr True [JObj [(''age'', JNum 6)]]
    | _ \<Rightarrow> False)
   \<and> js_field (JObj [(''name'', JStr ''Bob''), (''age'', JNum 5)]) ''name'' = JStr ''Bob''
   \<and> js_field (JObj [(''age'', JNum 6)]) ''name'' = JUndefined"
  by (simp add: getListInputProps_def prop_get_def isFormList_def items_def nth_js_def
      js_member_def js_field_def getInputOnChange_def opt_field_def exposes_def spread_def
      setListItem_def formList_def setFieldValue_values opt_index_def js_index_def js_truthy_def
      Let_def)

text \<open>
  Claim C2 says that \<open>getListInputProps\<close> returns \<open>undefined\<close> and never raises when the
  field is not list-tagged or no item exists at the index. On the one-item list
  \<open>[{name: 'A'}]\<close>, \<open>getListInputProps('list', 3, 'name')\<close> reads \<open>list[3][listField]\<close> with
  \<open>list[3]\<close> undefined and raises a \<open>TypeError\<close>.
\<close>

theorem getListInputProps_index_out_of_range_raises:
  "getListInputProps [(''list'', JArr True [item ''A''])] [] ''list'' 3 ''name''
      \<lparr>opt_type = None, opt_withError = None\<rparr>
     = Inl TypeError"
  by (simp add: getListInputProps_def prop_get_def isFormList_def items_def nth_js_def
      js_member_def Let_def)

text \<open>The other half of the degenerate case: a field that is not list-tagged yields \<open>undefined\<close>.\<close>

lemma getListInputProps_not_list:
  "\<not> isFormList (prop_get values field) \<Longrightarrow>
     getListInputProps values errors field index listField options = Inr None"
  by (simp add: getListInputProps_def Let_def)

section \<open>The error store\<close>

text \<open>
  Claim C3 says that every public error operation keeps the error store free of falsy
  values. \<open>setFieldError('name', null)\<close> on the empty error store yields \<open>{name: null}\<close>, a
  key that holds a falsy error, and \<open>setErrors({name: null})\<close> stores it likewise: neither
  filters what it is given.
\<close>

theorem setFieldError_stores_falsy_error:
  "error_store_ok (form_errors \<lparr>form_values = [], form_errors = [], values_ref = 0\<rparr>)
   \<and> form_errors (setFieldError ''name'' JNull
        \<lparr>form_values = [], form_errors = [], values_ref = 0\<rparr>) = [(''name'', JNull)]
   \<and> \<not> error_store_ok (form_errors (setFieldError ''name'' JNull
        \<lparr>form_values = [], form_errors = [], values_ref = 0\<rparr>))
   \<and> \<not> error_store_ok (form_errors (setErrors (NewState [(''name'', JNull)])
        \<lparr>form_values = [], form_errors = [], values_ref = 0\<rparr>))"
  by (simp add: error_store_ok_def setFieldError_def setErrors_def js_truthy_def)

text \<open>
  The operations that keep the invariant: \<open>clearFieldError\<close>, \<open>clearErrors\<close>, and
  \<open>setFieldError\<close> when the error it is given is truthy.
\<close>

lemma clearFieldError_ok:
  "error_store_ok (form_errors st) \<Longrightarrow> error_store_ok (form_errors (clearFieldError field st))"
  by (simp add: clearFieldError_def setErrors_def error_store_ok_def AList.delete_eq list_all_iff)

lemma clearErrors_ok: "error_store_ok (form_errors (clearErrors st))"
  by (simp add: clearErrors_def setErrors_def error_store_ok_def)

lemma setFieldError_ok:
  assumes "error_store_ok (form_errors st)" and "js_truthy error"
  shows "error_store_ok (form_errors (setFieldError field error st))"
proof -
  have "list_all (\<lambda>entry. js_truthy (snd entry)) (AList.update field error ps)"
    if "list_all (\<lambda>entry. js_truthy (snd entry)) ps" for ps
    using that assms(2) by (induction ps) auto
  with assms(1) show ?thesis
    by (simp add: setFieldError_def setErrors_def error_store_ok_def)
qed

end
